theory Spec2Isabelle
  imports Main "HOL-Library.Sublist"
begin

section \<open>Text, and the tables of the interpreter the program relies on\<close>

text \<open>
  A Python \<open>str\<close> is a sequence of Unicode code points, so a text is a list of naturals.
  \<open>str\<close> writes an ASCII literal.
\<close>

type_synonym utext = "nat list"

definition str :: "string \<Rightarrow> utext" where
  "str s = map of_char s"

text \<open>
  Two tables of the Unicode database decide what the program does and are not part of
  it: the decimal digits (what \<open>\d\<close> accepts) and the lower-case mapping (what
  \<open>str.lower()\<close> returns). Both grow with the interpreter's Unicode version, so the
  model takes them as a parameter.
\<close>

record unicode =
  decimal :: "nat \<Rightarrow> bool"
  lower :: "utext \<Rightarrow> utext"

text \<open>
  On Latin-1 (code points below 256) the tables are fixed: the only decimal digits are
  \<open>0\<close> to \<open>9\<close>, and lower-casing maps \<open>A-Z\<close>, \<open>U+00C0-U+00D6\<close> and \<open>U+00D8-U+00DE\<close>
  to the code point 32 above and leaves everything else alone.
\<close>

definition lower_latin1 :: "nat \<Rightarrow> nat" where
  "lower_latin1 c =
     (if (65 \<le> c \<and> c \<le> 90) \<or> (192 \<le> c \<and> c \<le> 214) \<or> (216 \<le> c \<and> c \<le> 222)
      then c + 32 else c)"

definition latin1_tables :: "unicode \<Rightarrow> bool" where
  "latin1_tables u \<longleftrightarrow>
     (\<forall>c. c < 256 \<longrightarrow> decimal u c = (48 \<le> c \<and> c \<le> 57)) \<and>
     (\<forall>t. (\<forall>c \<in> set t. c < 256) \<longrightarrow> lower u t = map lower_latin1 t)"

text \<open>
  White space (\<open>\s\<close>, \<open>str.strip()\<close>) and line boundaries (\<open>str.splitlines()\<close>) are
  short, fixed tables.
\<close>

definition is_space :: "nat \<Rightarrow> bool" where
  "is_space c \<longleftrightarrow>
     (9 \<le> c \<and> c \<le> 13) \<or> (28 \<le> c \<and> c \<le> 32) \<or> c = 133 \<or> c = 160 \<or> c = 5760 \<or>
     (8192 \<le> c \<and> c \<le> 8202) \<or> c = 8232 \<or> c = 8233 \<or> c = 8239 \<or> c = 8287 \<or> c = 12288"

definition is_linebreak :: "nat \<Rightarrow> bool" where
  "is_linebreak c \<longleftrightarrow>
     (10 \<le> c \<and> c \<le> 13) \<or> (28 \<le> c \<and> c \<le> 30) \<or> c = 133 \<or> c = 8232 \<or> c = 8233"

section \<open>Regular expressions as the \<open>re\<close> module matches them\<close>

text \<open>
  One item of a character set: a literal, a range \<open>a-b\<close>, \<open>\d\<close>, \<open>\s\<close>, or the dot
  (any code point but the newline, as no flag is given).
\<close>

datatype item = Lit nat | Range nat nat | Digit | Space | Dot

fun accepts :: "unicode \<Rightarrow> item \<Rightarrow> nat \<Rightarrow> bool" where
  "accepts u (Lit a) c = (c = a)"
| "accepts u (Range a b) c = (a \<le> c \<and> c \<le> b)"
| "accepts u Digit c = decimal u c"
| "accepts u Space c = is_space c"
| "accepts u Dot c = (c \<noteq> 10)"

text \<open>
  A group is read by name (\<open>m.group('codigo')\<close>) or by number (\<open>m.group(1)\<close>).
\<close>

datatype gkey = Name string | Num nat

text \<open>
  \<open>One its\<close> is one code point accepted by some item of \<open>its\<close>; \<open>Rep mn mx greedy r\<close> is
  \<open>r{mn,mx}\<close> (\<open>mx = None\<close>: no upper bound), greedy or lazy; \<open>Grp k r\<close> is a capturing
  group.
\<close>

datatype regex =
    Eps
  | One "item list"
  | Seq regex regex
  | Alt regex regex
  | Rep nat "nat option" bool regex
  | Grp gkey regex

fun rsize :: "regex \<Rightarrow> nat" where
  "rsize Eps = 0"
| "rsize (One its) = 0"
| "rsize (Seq r1 r2) = Suc (rsize r1 + rsize r2)"
| "rsize (Alt r1 r2) = Suc (rsize r1 + rsize r2)"
| "rsize (Rep mn mx g r) = Suc (rsize r)"
| "rsize (Grp k r) = Suc (rsize r)"

text \<open>
  A matcher state is the input still to be read and the groups captured so far, the
  latest first.
\<close>

type_synonym mstate = "utext \<times> (gkey \<times> utext) list"

text \<open>
  \<open>rmatch u r st\<close> lists every way \<open>r\<close> matches a prefix of the input of \<open>st\<close>, in the
  order in which the backtracking engine tries them: the left alternative before the
  right one, one more round of a greedy repetition before stopping, stopping before one
  more round for a lazy one. The engine returns the first entry. A round of a repetition
  has to read at least one code point (every repeated expression of this program does).
\<close>

function rmatch :: "unicode \<Rightarrow> regex \<Rightarrow> mstate \<Rightarrow> mstate list" where
  "rmatch u Eps st = [st]"
| "rmatch u (One its) (s, cs) =
     (case s of [] \<Rightarrow> [] | c # s' \<Rightarrow> if list_ex (\<lambda>i. accepts u i c) its then [(s', cs)] else [])"
| "rmatch u (Seq r1 r2) st = concat (map (rmatch u r2) (rmatch u r1 st))"
| "rmatch u (Alt r1 r2) st = rmatch u r1 st @ rmatch u r2 st"
| "rmatch u (Rep mn mx g r) st =
     (let more = (if mx = Some 0 then []
                  else concat (map (\<lambda>st'. if length (fst st') < length (fst st)
                                           then rmatch u (Rep (mn - 1) (map_option (\<lambda>k. k - 1) mx) g r) st'
                                           else [])
                                   (rmatch u r st)));
          stop = (if mn = 0 then [st] else [])
      in if g then more @ stop else stop @ more)"
| "rmatch u (Grp k r) (s, cs) =
     map (\<lambda>(s', cs'). (s', (k, take (length s - length s') s) # cs')) (rmatch u r (s, cs))"
  by pat_completeness auto
termination
  by (relation "inv_image (less_than <*lex*> less_than) (\<lambda>(u, r, st). (rsize r, length (fst st)))")
     auto

text \<open>
  A match object: the text matched, the input after it, and the groups.
\<close>

record match =
  matched :: utext
  rest :: utext
  groups :: "(gkey \<times> utext) list"

text \<open>\<open>m.group(k)\<close>: \<open>None\<close> when the group took no part in the match.\<close>

definition group :: "match \<Rightarrow> gkey \<Rightarrow> utext option" where
  "group m k = map_of (groups m) k"

definition match_at :: "unicode \<Rightarrow> regex \<Rightarrow> utext \<Rightarrow> match option" where
  "match_at u r s =
     (case rmatch u r (s, []) of
        [] \<Rightarrow> None
      | (s', cs) # _ \<Rightarrow> Some \<lparr>matched = take (length s - length s') s, rest = s', groups = cs\<rparr>)"

text \<open>
  \<open>pattern.search(s)\<close>: the match at the leftmost position that has one. The patterns
  of this program have no anchor and look neither behind nor ahead, so a match at a
  position depends on the text from that position on only, and the search runs on the
  suffixes of \<open>s\<close>.
\<close>

fun search :: "unicode \<Rightarrow> regex \<Rightarrow> utext \<Rightarrow> match option" where
  "search u r [] = match_at u r []"
| "search u r (c # s) =
     (case match_at u r (c # s) of Some m \<Rightarrow> Some m | None \<Rightarrow> search u r s)"

text \<open>
  \<open>pattern.finditer(s)\<close>: the matches from left to right, each search starting where the
  previous match ended. After an empty match the scan moves on by one code point (the
  patterns of this program have no empty match).
\<close>

function finditer :: "unicode \<Rightarrow> regex \<Rightarrow> utext \<Rightarrow> match list" where
  "finditer u r s =
     (case search u r s of
        None \<Rightarrow> []
      | Some m \<Rightarrow>
          m # (if length (rest m) < length s then finditer u r (rest m)
               else case s of [] \<Rightarrow> [] | _ # s' \<Rightarrow> finditer u r s'))"
  by pat_completeness auto
termination
  by (relation "measure (\<lambda>(u, r, s). length s)") auto

section \<open>String methods\<close>

text \<open>
  \<open>s.splitlines()\<close>: the lines of \<open>s\<close> without their line boundaries; \<open>\r\n\<close> is one
  boundary, and a boundary at the very end opens no further line.
\<close>

fun splitlines_acc :: "utext \<Rightarrow> utext \<Rightarrow> utext list" where
  "splitlines_acc cur [] = (if cur = [] then [] else [cur])"
| "splitlines_acc cur (c # s) =
     (if c = 13 \<and> s \<noteq> [] \<and> hd s = 10 then cur # splitlines_acc [] (tl s)
      else if is_linebreak c then cur # splitlines_acc [] s
      else splitlines_acc (cur @ [c]) s)"

definition splitlines :: "utext \<Rightarrow> utext list" where
  "splitlines s = splitlines_acc [] s"

text \<open>\<open>sep.join(xs)\<close>\<close>

fun join :: "utext \<Rightarrow> utext list \<Rightarrow> utext" where
  "join sep [] = []"
| "join sep [x] = x"
| "join sep (x # y # xs) = x @ sep @ join sep (y # xs)"

text \<open>\<open>s.strip()\<close>: white space removed at both ends.\<close>

definition strip :: "utext \<Rightarrow> utext" where
  "strip s = rev (dropWhile is_space (rev (dropWhile is_space s)))"

text \<open>\<open>s.replace(a, b)\<close> for a single code point \<open>a\<close> and a text \<open>b\<close>.\<close>

definition replace :: "nat \<Rightarrow> utext \<Rightarrow> utext \<Rightarrow> utext" where
  "replace a b s = concat (map (\<lambda>c. if c = a then b else [c]) s)"

text \<open>\<open>t in s\<close>: \<open>t\<close> occurs in \<open>s\<close> as a contiguous piece.\<close>

fun contains :: "utext \<Rightarrow> utext \<Rightarrow> bool" where
  "contains t [] = (t = [])"
| "contains t (c # s) = (prefix t (c # s) \<or> contains t s)"

section \<open>The patterns and the exclusion list\<close>

fun cat :: "regex list \<Rightarrow> regex" where
  "cat [] = Eps"
| "cat [r] = r"
| "cat (r # rs) = Seq r (cat rs)"

abbreviation digit :: regex where "digit \<equiv> One [Digit]"
abbreviation spaces1 :: regex where "spaces1 \<equiv> Rep 1 None True (One [Space])"
abbreviation spaces0 :: regex where "spaces0 \<equiv> Rep 0 None True (One [Space])"

text \<open>\<^verbatim>\<open>\d{1,3}(?:\.\d{3})*,\d{2}\<close>\<close>

definition valor :: regex where
  "valor = cat [Rep 1 (Some 3) True digit,
                Rep 0 None True (Seq (One [Lit 46]) (Rep 3 (Some 3) True digit)),
                One [Lit 44],
                Rep 2 (Some 2) True digit]"

text \<open>
  \<^verbatim>\<open>(?P<codigo>\d{4})\s+(?P<descricao>.+?)\s+(?P<principal>V)\s+(?P<juros>V|-)\s+(?P<multa>V|-)\s+(?P<total>V)\<close>
  with \<open>V\<close> the amount above.
\<close>

definition pattern_linha :: regex where
  "pattern_linha =
     cat [Grp (Name ''codigo'') (Rep 4 (Some 4) True digit), spaces1,
          Grp (Name ''descricao'') (Rep 1 None False (One [Dot])), spaces1,
          Grp (Name ''principal'') valor, spaces1,
          Grp (Name ''juros'') (Alt valor (One [Lit 45])), spaces1,
          Grp (Name ''multa'') (Alt valor (One [Lit 45])), spaces1,
          Grp (Name ''total'') valor]"

text \<open>
  \<^verbatim>\<open>(\d{2}/\d{2}/\d{4})\s*(\d{3}\s*-\s*[A-Z\<close>\<open>U+00C0\<close>\<^verbatim>\<open>-\<close>\<open>U+00DA\<close>\<^verbatim>\<open>0-9\.\s]+)\<close>
\<close>

definition pattern_data_banco :: regex where
  "pattern_data_banco =
     cat [Grp (Num 1) (cat [Rep 2 (Some 2) True digit, One [Lit 47],
                            Rep 2 (Some 2) True digit, One [Lit 47],
                            Rep 4 (Some 4) True digit]),
          spaces0,
          Grp (Num 2) (cat [Rep 3 (Some 3) True digit, spaces0, One [Lit 45], spaces0,
                            Rep 1 None True
                              (One [Range 65 90, Range 192 218, Range 48 57, Lit 46, Space])])]"

text \<open>
  \<open>'Ag\<close>\<open>U+00EA\<close>\<open>ncia', 'Estabelecimento', 'Valor Reservado', 'Restitu\<close>\<open>U+00ED\<close>\<open>do',
  'Refer\<close>\<open>U+00EA\<close>\<open>ncia'\<close>
\<close>

definition EXCECOES_DESCRICAO :: "utext list" where
  "EXCECOES_DESCRICAO =
     [str ''Ag'' @ [234] @ str ''ncia'', str ''Estabelecimento'', str ''Valor Reservado'',
      str ''Restitu'' @ [237] @ str ''do'', str ''Refer'' @ [234] @ str ''ncia'']"

section \<open>The extraction\<close>

text \<open>
  A Python value that is \<open>None\<close> or a string is an option; a method called on \<open>None\<close>
  raises \<open>AttributeError\<close>.
\<close>

datatype error = AttributeError

text \<open>
  One dictionary of \<open>registros\<close>; the fields are its keys, in order: the code, the
  description, the date, the bank, the principal, the interest, the penalty, the total.
\<close>

record registro =
  codigo_darf :: "utext option"
  descricao :: utext
  data_arrecadacao :: "utext option"
  banco :: utext
  valor_principal :: utext
  juros :: utext
  multa :: utext
  total :: utext

text \<open>The footer: the last 8 lines joined by a space, stripped.\<close>

definition rodape :: "utext \<Rightarrow> utext" where
  "rodape texto = (let linhas = splitlines texto
                   in strip (join (str '' '') (drop (length linhas - 8) linhas)))"

definition texto_flat :: "utext \<Rightarrow> utext" where
  "texto_flat texto = replace 10 (str '' '') texto"

text \<open>\<open>(m.group(1), m.group(2).strip())\<close>\<close>

definition data_banco_of :: "match \<Rightarrow> error + (utext option \<times> utext)" where
  "data_banco_of m =
     (case group m (Num 2) of
        None \<Rightarrow> Inl AttributeError
      | Some b \<Rightarrow> Inr (group m (Num 1), strip b))"

text \<open>Step 1 of the loop body: the date and the bank of a page.\<close>

definition data_banco :: "unicode \<Rightarrow> utext \<Rightarrow> error + (utext option \<times> utext)" where
  "data_banco u texto =
     (case search u pattern_data_banco (rodape texto) of
        Some m_fb \<Rightarrow> data_banco_of m_fb
      | None \<Rightarrow>
          (case search u pattern_data_banco (texto_flat texto) of
             Some m2 \<Rightarrow> data_banco_of m2
           | None \<Rightarrow> Inr (Some [], [])))"

text \<open>\<open>any(term.lower() in descricao.lower() for term in EXCECOES_DESCRICAO)\<close>\<close>

definition excecao :: "unicode \<Rightarrow> utext \<Rightarrow> bool" where
  "excecao u d = list_ex (\<lambda>termo. contains (lower u termo) (lower u d)) EXCECOES_DESCRICAO"

text \<open>\<open>x.replace('.', '').replace(',', '.')\<close>\<close>

definition normaliza :: "utext \<Rightarrow> utext" where
  "normaliza x = replace 44 (str ''.'') (replace 46 [] x)"

text \<open>\<open>x.replace('.', '').replace(',', '.') if x != '-' else '0.00'\<close>, \<open>x\<close> a group\<close>

definition normaliza_ou_zero :: "utext option \<Rightarrow> utext option" where
  "normaliza_ou_zero x = (if x \<noteq> Some (str ''-'') then map_option normaliza x
                          else Some (str ''0.00''))"

text \<open>
  The dictionary appended for a match \<open>m\<close> whose stripped description is \<open>desc\<close>;
  \<open>None\<close> when building it raises (\<open>replace\<close> called on a group that is \<open>None\<close>).
\<close>

definition monta_registro :: "utext option \<times> utext \<Rightarrow> utext \<Rightarrow> match \<Rightarrow> registro option" where
  "monta_registro db desc m =
     (case (map_option normaliza (group m (Name ''principal'')),
            normaliza_ou_zero (group m (Name ''juros'')),
            normaliza_ou_zero (group m (Name ''multa'')),
            map_option normaliza (group m (Name ''total''))) of
        (Some p, Some j, Some mu, Some t) \<Rightarrow>
          Some \<lparr>codigo_darf = group m (Name ''codigo''), descricao = desc,
                data_arrecadacao = fst db, banco = snd db,
                valor_principal = p, juros = j, multa = mu, total = t\<rparr>
      | _ \<Rightarrow> None)"

text \<open>
  The body of the loop over the matches: the list \<open>registros\<close> after the match \<open>m\<close>,
  or the error raised.
\<close>

definition passo_linha ::
  "unicode \<Rightarrow> utext option \<times> utext \<Rightarrow> registro list \<Rightarrow> match \<Rightarrow> error + registro list" where
  "passo_linha u db registros m =
     (case group m (Name ''descricao'') of
        None \<Rightarrow> Inl AttributeError
      | Some d \<Rightarrow>
          let desc = strip d in
          if excecao u desc then Inr registros
          else (case monta_registro db desc m of
                  None \<Rightarrow> Inl AttributeError
                | Some r \<Rightarrow> Inr (registros @ [r])))"

fun laco_linhas ::
  "unicode \<Rightarrow> utext option \<times> utext \<Rightarrow> registro list \<Rightarrow> match list \<Rightarrow> error + registro list" where
  "laco_linhas u db registros [] = Inr registros"
| "laco_linhas u db registros (m # ms) =
     (case passo_linha u db registros m of
        Inl e \<Rightarrow> Inl e
      | Inr registros' \<Rightarrow> laco_linhas u db registros' ms)"

text \<open>The body of the loop over the pages.\<close>

definition passo_pagina :: "unicode \<Rightarrow> registro list \<Rightarrow> utext \<Rightarrow> error + registro list" where
  "passo_pagina u registros texto =
     (case data_banco u texto of
        Inl e \<Rightarrow> Inl e
      | Inr db \<Rightarrow> laco_linhas u db registros (finditer u pattern_linha texto))"

fun laco_paginas :: "unicode \<Rightarrow> registro list \<Rightarrow> utext list \<Rightarrow> error + registro list" where
  "laco_paginas u registros [] = Inr registros"
| "laco_paginas u registros (texto # doc) =
     (case passo_pagina u registros texto of
        Inl e \<Rightarrow> Inl e
      | Inr registros' \<Rightarrow> laco_paginas u registros' doc)"

text \<open>
  \<open>extrair_dados\<close>, from the page texts that \<open>page.get_text()\<close> gives for the pages of
  the document, in order. The result is the list of rows that the data frame is built
  from.
\<close>

definition extrair_dados :: "unicode \<Rightarrow> utext list \<Rightarrow> error + registro list" where
  "extrair_dados u doc = laco_paginas u [] doc"

section \<open>The caller\<close>

text \<open>
  What the interface shows for an uploaded document: the warning when the data frame is
  empty, the success message with the table and the download otherwise. An exception
  of \<open>extrair_dados\<close> is not caught.
\<close>

datatype ui = Warning utext | Success utext "registro list"

definition msg_nenhum_dado :: utext where
  "msg_nenhum_dado =
     str ''Nenhum dado extra'' @ [237] @
     str ''do. Verifique se o layout do PDF corresponde aos padr'' @ [245] @
     str ''es esperados.''"

definition msg_sucesso :: utext where
  "msg_sucesso =
     str ''Extra'' @ [231, 227] @ str ''o conclu'' @ [237] @ str ''da com sucesso!''"

definition interface :: "unicode \<Rightarrow> utext list \<Rightarrow> error + ui" where
  "interface u doc =
     (case extrair_dados u doc of
        Inl e \<Rightarrow> Inl e
      | Inr df \<Rightarrow> Inr (if df = [] then Warning msg_nenhum_dado else Success msg_sucesso df))"

section \<open>Notions used to state the properties\<close>

text \<open>
  A match is accepted when its stripped description contains no exclusion term.
\<close>

definition aceito :: "unicode \<Rightarrow> match \<Rightarrow> bool" where
  "aceito u m = (case group m (Name ''descricao'') of
                   None \<Rightarrow> False
                 | Some d \<Rightarrow> \<not> excecao u (strip d))"

text \<open>The accepted matches of a page, in match order.\<close>

definition aceitos :: "unicode \<Rightarrow> utext \<Rightarrow> match list" where
  "aceitos u texto = filter (aceito u) (finditer u pattern_linha texto)"

text \<open>
  The row of a match on a page whose date and bank are \<open>db\<close>: the description
  stripped, the dictionary built from it.
\<close>

definition linha_de :: "utext option \<times> utext \<Rightarrow> match \<Rightarrow> registro option" where
  "linha_de db m = (case group m (Name ''descricao'') of
                      None \<Rightarrow> None
                    | Some d \<Rightarrow> monta_registro db (strip d) m)"

text \<open>The rows of a page alone: what \<open>extrair_dados\<close> returns for the document of that one page.\<close>

definition registros_pagina :: "unicode \<Rightarrow> utext \<Rightarrow> registro list" where
  "registros_pagina u texto = (case extrair_dados u [texto] of Inr rs \<Rightarrow> rs | Inl e \<Rightarrow> [])"


text \<open>Tables that know Latin-1 only; they satisfy \<open>latin1_tables\<close>.\<close>

definition so_latin1 :: unicode where
  "so_latin1 = \<lparr>decimal = (\<lambda>c. 48 \<le> c \<and> c \<le> 57), lower = map lower_latin1\<rparr>"

text \<open>
  Three static readings of an expression: the least number of code points a match
  takes, the groups that occur in it, and whether every match is certain to set group
  \<open>k\<close> to a text of at least \<open>n\<close> code points.
\<close>

fun minlen :: "regex \<Rightarrow> nat" where
  "minlen Eps = 0"
| "minlen (One its) = 1"
| "minlen (Seq r1 r2) = minlen r1 + minlen r2"
| "minlen (Alt r1 r2) = min (minlen r1) (minlen r2)"
| "minlen (Rep mn mx g r) = mn * minlen r"
| "minlen (Grp k r) = minlen r"

fun gkeys :: "regex \<Rightarrow> gkey list" where
  "gkeys Eps = []"
| "gkeys (One its) = []"
| "gkeys (Seq r1 r2) = gkeys r1 @ gkeys r2"
| "gkeys (Alt r1 r2) = gkeys r1 @ gkeys r2"
| "gkeys (Rep mn mx g r) = gkeys r"
| "gkeys (Grp k r) = k # gkeys r"

fun captures :: "gkey \<Rightarrow> nat \<Rightarrow> regex \<Rightarrow> bool" where
  "captures k n Eps = False"
| "captures k n (One its) = False"
| "captures k n (Seq r1 r2) = (captures k n r2 \<or> (captures k n r1 \<and> k \<notin> set (gkeys r2)))"
| "captures k n (Alt r1 r2) = (captures k n r1 \<and> captures k n r2)"
| "captures k n (Rep mn mx g r) = False"
| "captures k n (Grp k' r) = (if k' = k then n \<le> minlen r else captures k n r)"

text \<open>Every repeated expression reads at least one code point in each round.\<close>

fun loops_progress :: "regex \<Rightarrow> bool" where
  "loops_progress Eps = True"
| "loops_progress (One its) = True"
| "loops_progress (Seq r1 r2) = (loops_progress r1 \<and> loops_progress r2)"
| "loops_progress (Alt r1 r2) = (loops_progress r1 \<and> loops_progress r2)"
| "loops_progress (Rep mn mx g r) = (0 < minlen r \<and> loops_progress r)"
| "loops_progress (Grp k r) = loops_progress r"

section \<open>The matcher: what every match satisfies\<close>

declare rmatch.simps(5) [simp del]
declare finditer.simps [simp del]

lemma rmatch_Rep_cases:
  assumes "st' \<in> set (rmatch u (Rep mn mx g r) st)"
  obtains (stop) "mn = 0" "st' = st"
    | (more) mid where "mx \<noteq> Some 0" "mid \<in> set (rmatch u r st)" "length (fst mid) < length (fst st)"
        "st' \<in> set (rmatch u (Rep (mn - 1) (map_option (\<lambda>k. k - 1) mx) g r) mid)"
  using assms by (subst (asm) rmatch.simps(5)) (auto simp: Let_def split: if_splits)

lemma rmatch_Seq_iff:
  "st' \<in> set (rmatch u (Seq r1 r2) st) \<longleftrightarrow> (\<exists>mid \<in> set (rmatch u r1 st). st' \<in> set (rmatch u r2 mid))"
  by auto

lemma rmatch_minlen:
  "st' \<in> set (rmatch u r st) \<Longrightarrow> length (fst st') + minlen r \<le> length (fst st)"
proof (induction u r st arbitrary: st' rule: rmatch.induct)
  case (1 u st)
  then show ?case by simp
next
  case (2 u its s cs)
  then show ?case by (auto split: list.splits if_splits)
next
  case (3 u r1 r2 st)
  from "3.prems" obtain mid where m: "mid \<in> set (rmatch u r1 st)" "st' \<in> set (rmatch u r2 mid)"
    by auto
  from "3.IH"(1)[OF m(1)] "3.IH"(2)[OF m(1) m(2)] show ?case by simp
next
  case (4 u r1 r2 st)
  then show ?case by fastforce
next
  case (5 u mn mx g r st)
  from "5.prems"(1) show ?case
  proof (cases rule: rmatch_Rep_cases)
    case stop
    then show ?thesis by simp
  next
    case (more mid)
    have a: "length (fst mid) + minlen r \<le> length (fst st)"
      using "5.IH"(1) more by blast
    have b: "length (fst st') + (mn - 1) * minlen r \<le> length (fst mid)"
      using "5.IH"(2)[OF more(1) more(2) more(3) more(4)] by simp
    show ?thesis
    proof (cases mn)
      case 0
      then show ?thesis using a b by simp
    next
      case (Suc n)
      then show ?thesis using a b by simp
    qed
  qed
next
  case (6 u k r s cs)
  then show ?case by fastforce
qed

text \<open>
  The two shortcuts of the matcher are never taken by the patterns of this program:
  their repeated expressions always read something, and they have no empty match.
\<close>

lemma rmatch_progress:
  "0 < minlen r \<Longrightarrow> st' \<in> set (rmatch u r st) \<Longrightarrow> length (fst st') < length (fst st)"
  using rmatch_minlen[of st' u r st] by simp

lemma patterns_progress:
  "loops_progress pattern_linha" "loops_progress pattern_data_banco"
  "minlen pattern_linha = 20" "minlen pattern_data_banco = 15"
  by (simp_all add: pattern_linha_def pattern_data_banco_def valor_def)

lemma rmatch_keeps:
  "st' \<in> set (rmatch u r st) \<Longrightarrow> k \<notin> set (gkeys r) \<Longrightarrow> map_of (snd st') k = map_of (snd st) k"
proof (induction u r st arbitrary: st' rule: rmatch.induct)
  case (1 u st)
  then show ?case by simp
next
  case (2 u its s cs)
  then show ?case by (auto split: list.splits if_splits)
next
  case (3 u r1 r2 st)
  from "3.prems" obtain mid where m: "mid \<in> set (rmatch u r1 st)" "st' \<in> set (rmatch u r2 mid)"
    by auto
  from "3.IH"(1)[OF m(1)] "3.IH"(2)[OF m(1) m(2)] "3.prems"(2) show ?case by simp
next
  case (4 u r1 r2 st)
  then show ?case by fastforce
next
  case (5 u mn mx g r st)
  from "5.prems"(1) show ?case
  proof (cases rule: rmatch_Rep_cases)
    case stop
    then show ?thesis by simp
  next
    case (more mid)
    have a: "map_of (snd mid) k = map_of (snd st) k"
      using "5.IH"(1) more "5.prems"(2) by simp
    have b: "map_of (snd st') k = map_of (snd mid) k"
      using "5.IH"(2)[OF more(1) more(2) more(3) more(4)] "5.prems"(2) by simp
    show ?thesis using a b by simp
  qed
next
  case (6 u k' r s cs)
  then show ?case by fastforce
qed

lemma rmatch_captures:
  "captures k n r \<Longrightarrow> st' \<in> set (rmatch u r st) \<Longrightarrow>
   \<exists>t. map_of (snd st') k = Some t \<and> n \<le> length t"
proof (induction r arbitrary: st st')
  case (Seq r1 r2)
  from Seq.prems(2) obtain mid where m: "mid \<in> set (rmatch u r1 st)" "st' \<in> set (rmatch u r2 mid)"
    by auto
  show ?case
  proof (cases "captures k n r2")
    case True
    then show ?thesis using Seq.IH(2) m(2) by blast
  next
    case False
    with Seq.prems(1) have c: "captures k n r1" "k \<notin> set (gkeys r2)" by auto
    from Seq.IH(1)[OF c(1) m(1)] rmatch_keeps[OF m(2) c(2)] show ?thesis by simp
  qed
next
  case (Alt r1 r2)
  from Alt.prems(2) have "st' \<in> set (rmatch u r1 st) \<or> st' \<in> set (rmatch u r2 st)" by simp
  moreover from Alt.prems(1) have "captures k n r1" "captures k n r2" by simp_all
  ultimately show ?case using Alt.IH(1)[of st' st] Alt.IH(2)[of st' st] by blast
next
  case (Grp k' r)
  obtain s cs where st: "st = (s, cs)" by (cases st)
  from Grp.prems(2) st obtain s' cs' where
    mid: "(s', cs') \<in> set (rmatch u r (s, cs))"
    and st': "st' = (s', (k', take (length s - length s') s) # cs')"
    by auto
  show ?case
  proof (cases "k' = k")
    case True
    with Grp.prems(1) have "n \<le> minlen r" by simp
    moreover from rmatch_minlen[OF mid] have "length s' + minlen r \<le> length s" by simp
    ultimately show ?thesis using st' True by simp
  next
    case False
    with Grp.prems(1) have "captures k n r" by simp
    from Grp.IH[OF this mid] show ?thesis using st' False by simp
  qed
qed simp_all

lemma match_at_SomeD:
  "match_at u r s = Some m \<Longrightarrow> (rest m, groups m) \<in> set (rmatch u r (s, []))"
  by (auto simp: match_at_def split: list.splits)

lemma search_SomeD: "search u r s = Some m \<Longrightarrow> \<exists>s0. match_at u r s0 = Some m"
  by (induction s) (auto split: option.splits)

lemma finditer_memD: "m \<in> set (finditer u r s) \<Longrightarrow> \<exists>s0. match_at u r s0 = Some m"
proof (induction u r s rule: finditer.induct)
  case (1 u r s)
  show ?case
  proof (cases "search u r s")
    case None
    with "1.prems" show ?thesis by (simp add: finditer.simps[of u r s])
  next
    case (Some m0)
    show ?thesis
    proof (cases "m = m0")
      case True
      with Some search_SomeD show ?thesis by blast
    next
      case False
      with "1.prems" Some "1.IH" show ?thesis
        by (subst (asm) finditer.simps) (auto split: if_splits list.splits)
    qed
  qed
qed

lemma search_progress:
  assumes "0 < minlen r" "search u r s = Some m"
  shows "length (rest m) < length s"
  using assms(2)
proof (induction s)
  case Nil
  from match_at_SomeD[of u r "[]" m] rmatch_progress[OF assms(1), of "(rest m, groups m)" u "([], [])"]
    Nil show ?case by simp
next
  case (Cons c s)
  show ?case
  proof (cases "match_at u r (c # s)")
    case None
    with Cons show ?thesis by simp
  next
    case (Some m')
    with Cons.prems have "match_at u r (c # s) = Some m" by simp
    from match_at_SomeD[OF this] rmatch_progress[OF assms(1), of "(rest m, groups m)" u "(c # s, [])"]
    show ?thesis by simp
  qed
qed

lemma match_at_group:
  "captures k n r \<Longrightarrow> match_at u r s = Some m \<Longrightarrow> \<exists>t. group m k = Some t \<and> n \<le> length t"
  using rmatch_captures[of k n r "(rest m, groups m)" u "(s, [])"] match_at_SomeD[of u r s m]
  by (simp add: group_def)

section \<open>The loops\<close>

lemma finditer_group:
  "captures k n r \<Longrightarrow> m \<in> set (finditer u r s) \<Longrightarrow> \<exists>t. group m k = Some t \<and> n \<le> length t"
  using finditer_memD match_at_group by blast

lemma search_group:
  "captures k n r \<Longrightarrow> search u r s = Some m \<Longrightarrow> \<exists>t. group m k = Some t \<and> n \<le> length t"
  using search_SomeD match_at_group by blast

lemma captures_linha:
  "captures (Name ''codigo'') 4 pattern_linha"
  "captures (Name ''descricao'') 1 pattern_linha"
  "captures (Name ''principal'') 4 pattern_linha"
  "captures (Name ''juros'') 1 pattern_linha"
  "captures (Name ''multa'') 1 pattern_linha"
  "captures (Name ''total'') 4 pattern_linha"
  by (simp_all add: pattern_linha_def valor_def)

lemma captures_data_banco:
  "captures (Num 1) 10 pattern_data_banco"
  "captures (Num 2) 5 pattern_data_banco"
  by (simp_all add: pattern_data_banco_def)

lemma data_banco_of_total:
  "search u pattern_data_banco s = Some m \<Longrightarrow>
   \<exists>d b. group m (Num 1) = Some d \<and> group m (Num 2) = Some b \<and> data_banco_of m = Inr (Some d, strip b)"
  using search_group[OF captures_data_banco(1), of u s m] search_group[OF captures_data_banco(2), of u s m]
  by (auto simp: data_banco_of_def)

lemma data_banco_total: "\<exists>db. data_banco u texto = Inr db"
  using data_banco_of_total[of u "rodape texto"] data_banco_of_total[of u "texto_flat texto"]
  by (auto simp: data_banco_def split: option.splits)

lemma linha_completa:
  assumes "m \<in> set (finditer u pattern_linha s)"
  shows "\<exists>c d p j mu t.
           group m (Name ''codigo'') = Some c \<and> group m (Name ''descricao'') = Some d \<and>
           group m (Name ''principal'') = Some p \<and> group m (Name ''juros'') = Some j \<and>
           group m (Name ''multa'') = Some mu \<and> group m (Name ''total'') = Some t \<and>
           length c \<ge> 4 \<and> length p \<ge> 4 \<and> length t \<ge> 4"
  using finditer_group[OF captures_linha(1) assms] finditer_group[OF captures_linha(2) assms]
    finditer_group[OF captures_linha(3) assms] finditer_group[OF captures_linha(4) assms]
    finditer_group[OF captures_linha(5) assms] finditer_group[OF captures_linha(6) assms]
  by blast

lemma linha_de_Some:
  assumes "m \<in> set (finditer u pattern_linha s)"
  shows "\<exists>r. linha_de db m = Some r"
proof -
  from linha_completa[OF assms] obtain c d p j mu t where
    "group m (Name ''descricao'') = Some d" "group m (Name ''principal'') = Some p"
    "group m (Name ''juros'') = Some j" "group m (Name ''multa'') = Some mu"
    "group m (Name ''total'') = Some t" by blast
  then show ?thesis
    by (simp add: linha_de_def monta_registro_def normaliza_ou_zero_def)
qed

lemma passo_linha_eq:
  assumes "linha_de db m = Some r"
  shows "passo_linha u db registros m = Inr (if aceito u m then registros @ [r] else registros)"
  using assms
  by (auto simp: passo_linha_def linha_de_def aceito_def Let_def split: option.splits)

lemma laco_linhas_eq:
  assumes "\<forall>m \<in> set ms. \<exists>r. linha_de db m = Some r"
  shows "\<exists>rs. laco_linhas u db registros ms = Inr (registros @ rs) \<and>
              map Some rs = map (linha_de db) (filter (aceito u) ms)"
  using assms
proof (induction ms arbitrary: registros)
  case Nil
  then show ?case by simp
next
  case (Cons m ms)
  from Cons.prems obtain r where r: "linha_de db m = Some r" by auto
  let ?regs = "if aceito u m then registros @ [r] else registros"
  from Cons.IH[of ?regs] Cons.prems obtain rs where
    rs: "laco_linhas u db ?regs ms = Inr (?regs @ rs)"
        "map Some rs = map (linha_de db) (filter (aceito u) ms)" by auto
  show ?case
  proof (cases "aceito u m")
    case True
    with rs r have "laco_linhas u db registros (m # ms) = Inr (registros @ (r # rs))"
      by (simp add: passo_linha_eq[OF r])
    moreover from True rs r have "map Some (r # rs) = map (linha_de db) (filter (aceito u) (m # ms))"
      by simp
    ultimately show ?thesis by blast
  next
    case False
    with rs r have "laco_linhas u db registros (m # ms) = Inr (registros @ rs)"
      by (simp add: passo_linha_eq[OF r])
    moreover from False rs have "map Some rs = map (linha_de db) (filter (aceito u) (m # ms))"
      by simp
    ultimately show ?thesis by blast
  qed
qed

lemma passo_pagina_eq:
  "\<exists>db rs. data_banco u texto = Inr db \<and>
           map Some rs = map (linha_de db) (aceitos u texto) \<and>
           (\<forall>registros. passo_pagina u registros texto = Inr (registros @ rs))"
proof -
  from data_banco_total obtain db where db: "data_banco u texto = Inr db" by blast
  have all: "\<forall>m \<in> set (finditer u pattern_linha texto). \<exists>r. linha_de db m = Some r"
    using linha_de_Some by blast
  from laco_linhas_eq[OF all, of u "[]"] obtain rs where
    m: "map Some rs = map (linha_de db) (aceitos u texto)"
    by (auto simp: aceitos_def)
  have "passo_pagina u registros texto = Inr (registros @ rs)" for registros
  proof -
    from laco_linhas_eq[OF all, of u registros] obtain rs' where
      rs': "laco_linhas u db registros (finditer u pattern_linha texto) = Inr (registros @ rs')"
           "map Some rs' = map (linha_de db) (filter (aceito u) (finditer u pattern_linha texto))"
      by blast
    from rs'(2) m have "map Some rs' = map Some rs" by (simp add: aceitos_def)
    then have "rs' = rs" by (simp add: inj_map_eq_map)
    with rs'(1) db show ?thesis by (simp add: passo_pagina_def)
  qed
  with db m show ?thesis by blast
qed

lemma pagina_registros:
  "passo_pagina u registros texto = Inr (registros @ registros_pagina u texto)"
  "extrair_dados u [texto] = Inr (registros_pagina u texto)"
  "\<exists>db. data_banco u texto = Inr db \<and>
        map Some (registros_pagina u texto) = map (linha_de db) (aceitos u texto)"
proof -
  from passo_pagina_eq[of u texto] obtain db rs where
    db: "data_banco u texto = Inr db"
    and rs: "map Some rs = map (linha_de db) (aceitos u texto)"
    and pp: "\<And>registros. passo_pagina u registros texto = Inr (registros @ rs)"
    by blast
  from pp[of "[]"] have e: "extrair_dados u [texto] = Inr rs"
    by (simp add: extrair_dados_def)
  then have rp: "registros_pagina u texto = rs"
    by (simp add: registros_pagina_def)
  from pp rp show "passo_pagina u registros texto = Inr (registros @ registros_pagina u texto)"
    by simp
  from e rp show "extrair_dados u [texto] = Inr (registros_pagina u texto)" by simp
  from db rs rp show "\<exists>db. data_banco u texto = Inr db \<and>
        map Some (registros_pagina u texto) = map (linha_de db) (aceitos u texto)" by blast
qed

lemma laco_paginas_eq:
  "laco_paginas u registros doc = Inr (registros @ concat (map (registros_pagina u) doc))"
  by (induction doc arbitrary: registros) (simp_all add: pagina_registros(1))

lemma extrair_dados_eq:
  "extrair_dados u doc = Inr (concat (map (registros_pagina u) doc))"
  by (simp add: extrair_dados_def laco_paginas_eq)

lemma map_Some_list_all2:
  "map Some rs = map f ms \<Longrightarrow> list_all2 (\<lambda>m r. f m = Some r) ms rs"
  by (induction ms arbitrary: rs) auto

lemma pagina_list_all2:
  assumes "\<And>db m r. data_banco u texto = Inr db \<Longrightarrow> m \<in> set (finditer u pattern_linha texto) \<Longrightarrow>
             aceito u m \<Longrightarrow> linha_de db m = Some r \<Longrightarrow> P m r"
  shows "list_all2 P (aceitos u texto) (registros_pagina u texto)"
proof -
  from pagina_registros(3)[of u texto] obtain db where
    db: "data_banco u texto = Inr db"
    and rs: "map Some (registros_pagina u texto) = map (linha_de db) (aceitos u texto)"
    by blast
  from map_Some_list_all2[OF rs]
  have "list_all2 (\<lambda>m r. linha_de db m = Some r) (aceitos u texto) (registros_pagina u texto)" .
  then show ?thesis
  proof (rule list.rel_mono_strong)
    fix m r
    assume "m \<in> set (aceitos u texto)" "linha_de db m = Some r"
    with db show "P m r" using assms by (simp add: aceitos_def)
  qed
qed

lemma documento_list_all2:
  assumes "\<And>texto db m r. data_banco u texto = Inr db \<Longrightarrow>
             m \<in> set (finditer u pattern_linha texto) \<Longrightarrow>
             aceito u m \<Longrightarrow> linha_de db m = Some r \<Longrightarrow> P m r"
  shows "list_all2 P (concat (map (aceitos u) doc)) (concat (map (registros_pagina u) doc))"
proof (induction doc)
  case Nil
  then show ?case by simp
next
  case (Cons texto doc)
  have "list_all2 P (aceitos u texto) (registros_pagina u texto)"
    using assms by (rule pagina_list_all2)
  with Cons.IH show ?case by (simp add: list_all2_appendI)
qed

lemma linha_de_campos:
  assumes "linha_de db m = Some r"
  shows "codigo_darf r = group m (Name ''codigo'')"
    and "Some (descricao r) = map_option strip (group m (Name ''descricao''))"
    and "data_arrecadacao r = fst db" and "banco r = snd db"
    and "Some (valor_principal r) = map_option normaliza (group m (Name ''principal''))"
    and "Some (juros r) = normaliza_ou_zero (group m (Name ''juros''))"
    and "Some (multa r) = normaliza_ou_zero (group m (Name ''multa''))"
    and "Some (total r) = map_option normaliza (group m (Name ''total''))"
  using assms
  by (auto simp: linha_de_def monta_registro_def split: option.splits)

lemma replace_vazio: "replace a [] s = filter (\<lambda>c. c \<noteq> a) s"
  by (induction s) (simp_all add: replace_def)

lemma replace_um: "replace a [b] s = map (\<lambda>c. if c = a then b else c) s"
  by (induction s) (simp_all add: replace_def)

lemma normaliza_eq:
  "normaliza x = map (\<lambda>c. if c = 44 then 46 else c) (filter (\<lambda>c. c \<noteq> 46) x)"
  by (simp add: normaliza_def replace_vazio replace_um str_def)

lemma list_all2_direita:
  "list_all2 P xs ys \<Longrightarrow> y \<in> set ys \<Longrightarrow> \<exists>x \<in> set xs. P x y"
  by (induction rule: list_all2_induct) auto

lemma excecao_iff:
  "excecao u d \<longleftrightarrow> (\<exists>termo \<in> set EXCECOES_DESCRICAO. contains (lower u termo) (lower u d))"
  by (simp add: excecao_def list_ex_iff)

lemma list_all2_paginas:
  "list_all2 (\<lambda>texto rs. extrair_dados u [texto] = Inr rs) doc (map (registros_pagina u) doc)"
  by (induction doc) (simp_all add: pagina_registros(2))

lemma pagina_sem_linhas:
  "aceitos u texto = [] \<Longrightarrow> registros_pagina u texto = []"
  using pagina_registros(3)[of u texto] by auto

lemma linhas_da_pagina_db:
  assumes "data_banco u texto = Inr db" "r \<in> set (registros_pagina u texto)"
  shows "data_arrecadacao r = fst db \<and> banco r = snd db"
proof -
  have "list_all2 (\<lambda>m r. data_arrecadacao r = fst db \<and> banco r = snd db)
          (aceitos u texto) (registros_pagina u texto)"
  proof (rule pagina_list_all2)
    fix db' m r'
    assume "data_banco u texto = Inr db'" "linha_de db' m = Some r'"
    with assms(1) linha_de_campos(3,4)[of db' m r']
    show "data_arrecadacao r' = fst db \<and> banco r' = snd db" by simp
  qed
  from list_all2_direita[OF this assms(2)] show ?thesis by blast
qed

lemma numero_de_linhas:
  "length (concat (map (registros_pagina u) doc)) = length (concat (map (aceitos u) doc))"
proof -
  have "list_all2 (\<lambda>m r. True) (concat (map (aceitos u) doc)) (concat (map (registros_pagina u) doc))"
    by (rule documento_list_all2) simp
  then show ?thesis by (simp add: list_all2_lengthD)
qed

lemma search_skip:
  "\<forall>k<length pre. match_at u r (drop k (pre @ s)) = None \<Longrightarrow> search u r (pre @ s) = search u r s"
proof (induction pre)
  case Nil
  then show ?case by simp
next
  case (Cons c pre)
  from Cons.prems have 0: "match_at u r (c # pre @ s) = None" by force
  have "\<forall>k<length pre. match_at u r (drop k (pre @ s)) = None"
  proof (intro allI impI)
    fix k assume "k < length pre"
    then have "Suc k < length (c # pre)" by simp
    with Cons.prems have "match_at u r (drop (Suc k) ((c # pre) @ s)) = None" by blast
    then show "match_at u r (drop k (pre @ s)) = None" by simp
  qed
  with Cons.IH 0 show ?case by simp
qed





section \<open>Running the program on a given text\<close>

lemma latin1_decimal:
  "latin1_tables u \<Longrightarrow> c < 256 \<Longrightarrow> decimal u c = (48 \<le> c \<and> c \<le> 57)"
  by (simp add: latin1_tables_def)

lemma latin1_lower:
  "latin1_tables u \<Longrightarrow> \<forall>c \<in> set t. c < 256 \<Longrightarrow> lower u t = map lower_latin1 t"
  by (simp add: latin1_tables_def)

lemma so_latin1_tables: "latin1_tables so_latin1"
  by (simp add: latin1_tables_def so_latin1_def)

lemmas avalia =
  extrair_dados_def passo_pagina_def data_banco_def data_banco_of_def rodape_def texto_flat_def
  splitlines_def strip_def replace_def passo_linha_def monta_registro_def
  normaliza_def normaliza_ou_zero_def excecao_def EXCECOES_DESCRICAO_def group_def
  match_at_def pattern_linha_def pattern_data_banco_def valor_def str_def
  rmatch.simps(5) finditer.simps Let_def latin1_decimal latin1_lower lower_latin1_def
  is_space_def is_linebreak_def

lemmas avalia_latin1 = avalia so_latin1_tables aceitos_def aceito_def

text \<open>
  C1. The page text \<open>1234 IMPOSTO DE RENDA 1.234,56 - - 1.234,56\<close> gives exactly one row:
  code \<open>1234\<close>, description \<open>IMPOSTO DE RENDA\<close>, principal \<open>1234.56\<close>, interest \<open>0.00\<close>,
  penalty \<open>0.00\<close>, total \<open>1234.56\<close> (and, the page having no date and bank, both empty).
\<close>

theorem linha_imposto_de_renda:
  assumes "latin1_tables u"
  shows "extrair_dados u [str ''1234 IMPOSTO DE RENDA 1.234,56 - - 1.234,56''] =
     Inr [\<lparr>codigo_darf = Some (str ''1234''), descricao = str ''IMPOSTO DE RENDA'',
           data_arrecadacao = Some [], banco = [],
           valor_principal = str ''1234.56'', juros = str ''0.00'', multa = str ''0.00'',
           total = str ''1234.56''\<rparr>]"
  using assms by (simp add: avalia)

theorem linha_imposto_de_renda_witness:
  "latin1_tables so_latin1 \<and>
   extrair_dados so_latin1 [str ''1234 IMPOSTO DE RENDA 1.234,56 - - 1.234,56''] =
     Inr [\<lparr>codigo_darf = Some (str ''1234''), descricao = str ''IMPOSTO DE RENDA'',
           data_arrecadacao = Some [], banco = [],
           valor_principal = str ''1234.56'', juros = str ''0.00'', multa = str ''0.00'',
           total = str ''1234.56''\<rparr>]"
  using linha_imposto_de_renda [OF so_latin1_tables] so_latin1_tables by simp

section \<open>Normalised amounts and excluded descriptions\<close>

text \<open>
  C2. For every document the extraction succeeds, and its rows are, in order, those of
  the accepted matches. In the row of a match every monetary field is the matched
  amount with all periods removed and the comma replaced by a point; an interest or a
  penalty that is the literal \<open>-\<close> becomes exactly \<open>0.00\<close>; principal and total are always
  present and never \<open>-\<close>.
\<close>

theorem campos_normalizados:
  "\<exists>rs. extrair_dados u doc = Inr rs \<and>
     list_all2
       (\<lambda>m r. \<exists>p j mu t.
          group m (Name ''principal'') = Some p \<and> group m (Name ''juros'') = Some j \<and>
          group m (Name ''multa'') = Some mu \<and> group m (Name ''total'') = Some t \<and>
          p \<noteq> str ''-'' \<and> t \<noteq> str ''-'' \<and>
          valor_principal r = map (\<lambda>c. if c = 44 then 46 else c) (filter (\<lambda>c. c \<noteq> 46) p) \<and>
          juros r = (if j = str ''-'' then str ''0.00''
                     else map (\<lambda>c. if c = 44 then 46 else c) (filter (\<lambda>c. c \<noteq> 46) j)) \<and>
          multa r = (if mu = str ''-'' then str ''0.00''
                     else map (\<lambda>c. if c = 44 then 46 else c) (filter (\<lambda>c. c \<noteq> 46) mu)) \<and>
          total r = map (\<lambda>c. if c = 44 then 46 else c) (filter (\<lambda>c. c \<noteq> 46) t))
       (concat (map (aceitos u) doc)) rs"
proof -
  let ?P = "\<lambda>m r. \<exists>p j mu t.
          group m (Name ''principal'') = Some p \<and> group m (Name ''juros'') = Some j \<and>
          group m (Name ''multa'') = Some mu \<and> group m (Name ''total'') = Some t \<and>
          p \<noteq> str ''-'' \<and> t \<noteq> str ''-'' \<and>
          valor_principal r = map (\<lambda>c. if c = 44 then 46 else c) (filter (\<lambda>c. c \<noteq> 46) p) \<and>
          juros r = (if j = str ''-'' then str ''0.00''
                     else map (\<lambda>c. if c = 44 then 46 else c) (filter (\<lambda>c. c \<noteq> 46) j)) \<and>
          multa r = (if mu = str ''-'' then str ''0.00''
                     else map (\<lambda>c. if c = 44 then 46 else c) (filter (\<lambda>c. c \<noteq> 46) mu)) \<and>
          total r = map (\<lambda>c. if c = 44 then 46 else c) (filter (\<lambda>c. c \<noteq> 46) t)"
  have "list_all2 ?P (concat (map (aceitos u) doc)) (concat (map (registros_pagina u) doc))"
  proof (rule documento_list_all2)
    fix texto db m r
    assume m: "m \<in> set (finditer u pattern_linha texto)" and r: "linha_de db m = Some r"
    from linha_completa[OF m] obtain c d p j mu t where g:
      "group m (Name ''principal'') = Some p" "group m (Name ''juros'') = Some j"
      "group m (Name ''multa'') = Some mu" "group m (Name ''total'') = Some t"
      "length p \<ge> 4" "length t \<ge> 4" by blast
    from g(5,6) have ne: "p \<noteq> str ''-''" "t \<noteq> str ''-''" by (auto simp: str_def)
    from linha_de_campos(5-8)[OF r] g(1-4)
    have "valor_principal r = normaliza p" "total r = normaliza t"
      "juros r = (if j = str ''-'' then str ''0.00'' else normaliza j)"
      "multa r = (if mu = str ''-'' then str ''0.00'' else normaliza mu)"
      by (auto simp: normaliza_ou_zero_def)
    with g(1-4) ne show "?P m r" by (simp add: normaliza_eq)
  qed
  then show ?thesis using extrair_dados_eq by blast
qed

theorem campos_normalizados_witness:
  "extrair_dados so_latin1 [str ''1234 A 1.234.567,89 12,00 - 1.234.579,89''] =
     Inr [\<lparr>codigo_darf = Some (str ''1234''), descricao = str ''A'',
           data_arrecadacao = Some [], banco = [],
           valor_principal = str ''1234567.89'', juros = str ''12.00'', multa = str ''0.00'',
           total = str ''1234579.89''\<rparr>] \<and>
   length (concat (map (aceitos so_latin1) [str ''1234 A 1.234.567,89 12,00 - 1.234.579,89''])) = 1"
proof -
  let ?doc = "[str ''1234 A 1.234.567,89 12,00 - 1.234.579,89'']"
  have e: "extrair_dados so_latin1 ?doc =
     Inr [\<lparr>codigo_darf = Some (str ''1234''), descricao = str ''A'',
           data_arrecadacao = Some [], banco = [],
           valor_principal = str ''1234567.89'', juros = str ''12.00'', multa = str ''0.00'',
           total = str ''1234579.89''\<rparr>]"
    by (simp add: avalia_latin1)
  from campos_normalizados[of so_latin1 ?doc] e
  have "length (concat (map (aceitos so_latin1) ?doc)) = 1"
    by (auto dest: list_all2_lengthD)
  with e show ?thesis by blast
qed

text \<open>
  C3. In every row of every document the description contains, after lower-casing both,
  none of the exclusion terms; the rows are exactly those of the accepted matches; and
  a match whose stripped description contains a term in any case is not accepted: the
  loop body leaves the list of rows as it was.
\<close>

theorem descricoes_sem_excecao:
  "(\<exists>rs. extrair_dados u doc = Inr rs \<and>
      (\<forall>r \<in> set rs. \<forall>termo \<in> set EXCECOES_DESCRICAO.
          \<not> contains (lower u termo) (lower u (descricao r))) \<and>
      list_all2 (\<lambda>m r. Some (descricao r) = map_option strip (group m (Name ''descricao'')))
        (concat (map (aceitos u) doc)) rs) \<and>
   (group m (Name ''descricao'') = Some d \<longrightarrow> termo \<in> set EXCECOES_DESCRICAO \<longrightarrow>
      contains (lower u termo) (lower u (strip d)) \<longrightarrow>
      \<not> aceito u m \<and> passo_linha u db registros m = Inr registros)"
proof -
  let ?P = "\<lambda>m r. Some (descricao r) = map_option strip (group m (Name ''descricao'')) \<and>
                  \<not> excecao u (descricao r)"
  let ?rs = "concat (map (registros_pagina u) doc)"
  have l: "list_all2 ?P (concat (map (aceitos u) doc)) ?rs"
  proof (rule documento_list_all2)
    fix texto db m r
    assume a: "aceito u m" and r: "linha_de db m = Some r"
    from linha_de_campos(2)[OF r] a show "?P m r"
      by (auto simp: aceito_def split: option.splits)
  qed
  have 1: "\<forall>r \<in> set ?rs. \<forall>termo \<in> set EXCECOES_DESCRICAO.
          \<not> contains (lower u termo) (lower u (descricao r))"
  proof
    fix r assume "r \<in> set ?rs"
    with list_all2_direita[OF l] obtain m where "?P m r"
      by blast
    then show "\<forall>termo \<in> set EXCECOES_DESCRICAO. \<not> contains (lower u termo) (lower u (descricao r))"
      by (simp add: excecao_iff)
  qed
  from l have 2: "list_all2 (\<lambda>m r. Some (descricao r) = map_option strip (group m (Name ''descricao'')))
        (concat (map (aceitos u) doc)) ?rs"
    by (rule list_all2_mono) simp
  have 3: "group m (Name ''descricao'') = Some d \<longrightarrow> termo \<in> set EXCECOES_DESCRICAO \<longrightarrow>
      contains (lower u termo) (lower u (strip d)) \<longrightarrow>
      \<not> aceito u m \<and> passo_linha u db registros m = Inr registros"
    by (auto simp: passo_linha_def aceito_def excecao_iff Let_def)
  from 1 2 3 extrair_dados_eq[of u doc] show ?thesis by blast
qed

theorem descricoes_sem_excecao_witness:
  "extrair_dados so_latin1
     [str ''1234 Valor Reservado 1,00 - - 1,00'' @ [10] @ str ''5678 IMPOSTO 2,00 - - 2,00''] =
     Inr [\<lparr>codigo_darf = Some (str ''5678''), descricao = str ''IMPOSTO'',
           data_arrecadacao = Some [], banco = [],
           valor_principal = str ''2.00'', juros = str ''0.00'', multa = str ''0.00'',
           total = str ''2.00''\<rparr>] \<and>
   group \<lparr>matched = [], rest = [], groups = [(Name ''descricao'', str '' VALOR reservado '')]\<rparr>
     (Name ''descricao'') = Some (str '' VALOR reservado '') \<and>
   str ''Valor Reservado'' \<in> set EXCECOES_DESCRICAO \<and>
   contains (lower so_latin1 (str ''Valor Reservado''))
     (lower so_latin1 (strip (str '' VALOR reservado ''))) \<and>
   passo_linha so_latin1 (Some [], []) []
     \<lparr>matched = [], rest = [], groups = [(Name ''descricao'', str '' VALOR reservado '')]\<rparr> = Inr []"
proof -
  let ?m = "\<lparr>matched = [], rest = [], groups = [(Name ''descricao'', str '' VALOR reservado '')]\<rparr>"
  have e: "extrair_dados so_latin1
     [str ''1234 Valor Reservado 1,00 - - 1,00'' @ [10] @ str ''5678 IMPOSTO 2,00 - - 2,00''] =
     Inr [\<lparr>codigo_darf = Some (str ''5678''), descricao = str ''IMPOSTO'',
           data_arrecadacao = Some [], banco = [],
           valor_principal = str ''2.00'', juros = str ''0.00'', multa = str ''0.00'',
           total = str ''2.00''\<rparr>]"
    by (simp add: avalia_latin1)
  have g: "group ?m (Name ''descricao'') = Some (str '' VALOR reservado '')"
    by (simp add: group_def)
  have t: "str ''Valor Reservado'' \<in> set EXCECOES_DESCRICAO"
    by (simp add: EXCECOES_DESCRICAO_def)
  have c: "contains (lower so_latin1 (str ''Valor Reservado''))
     (lower so_latin1 (strip (str '' VALOR reservado '')))"
    by (simp add: avalia_latin1)
  from descricoes_sem_excecao[of so_latin1 "[]" ?m "str '' VALOR reservado ''" "str ''Valor Reservado''"
      "(Some [], [])" "[]"] g t c
  have "passo_linha so_latin1 (Some [], []) [] ?m = Inr []" by blast
  with e g t c show ?thesis by blast
qed

section \<open>Pages\<close>

text \<open>
  C7. The rows of a document are the rows obtained from each of its pages alone,
  concatenated in page order; the rows of a page are those of its accepted matches, in
  match order; a page on which the line pattern matches nowhere gives no row and
  leaves the rows of the other pages as they are.
\<close>

theorem paginas_em_ordem:
  "(\<exists>rss. list_all2 (\<lambda>texto rs. extrair_dados u [texto] = Inr rs) doc rss \<and>
          extrair_dados u doc = Inr (concat rss)) \<and>
   (\<exists>db rs. data_banco u texto = Inr db \<and> extrair_dados u [texto] = Inr rs \<and>
            map Some rs = map (linha_de db) (aceitos u texto)) \<and>
   (finditer u pattern_linha texto = [] \<longrightarrow>
      extrair_dados u [texto] = Inr [] \<and>
      extrair_dados u (pre @ texto # post) = extrair_dados u (pre @ post))"
proof -
  have 1: "\<exists>rss. list_all2 (\<lambda>texto rs. extrair_dados u [texto] = Inr rs) doc rss \<and>
          extrair_dados u doc = Inr (concat rss)"
    using list_all2_paginas[of u doc] extrair_dados_eq[of u doc] by blast
  have 2: "\<exists>db rs. data_banco u texto = Inr db \<and> extrair_dados u [texto] = Inr rs \<and>
            map Some rs = map (linha_de db) (aceitos u texto)"
    using pagina_registros(2,3)[of u texto] by blast
  have 3: "extrair_dados u [texto] = Inr [] \<and>
      extrair_dados u (pre @ texto # post) = extrair_dados u (pre @ post)"
    if "finditer u pattern_linha texto = []"
  proof -
    from that have "aceitos u texto = []" by (simp add: aceitos_def)
    then have "registros_pagina u texto = []" by (rule pagina_sem_linhas)
    then show ?thesis by (simp add: extrair_dados_eq)
  qed
  from 1 2 3 show ?thesis by blast
qed

theorem paginas_em_ordem_witness:
  "finditer so_latin1 pattern_linha (str ''pagina sem linhas'') = [] \<and>
   extrair_dados so_latin1 [str ''pagina sem linhas''] = Inr [] \<and>
   extrair_dados so_latin1
     [str ''1234 A 1,00 - - 1,00'', str ''pagina sem linhas'', str ''5678 B 2,00 - - 2,00''] =
   Inr [\<lparr>codigo_darf = Some (str ''1234''), descricao = str ''A'',
          data_arrecadacao = Some [], banco = [],
          valor_principal = str ''1.00'', juros = str ''0.00'', multa = str ''0.00'',
          total = str ''1.00''\<rparr>,
        \<lparr>codigo_darf = Some (str ''5678''), descricao = str ''B'',
          data_arrecadacao = Some [], banco = [],
          valor_principal = str ''2.00'', juros = str ''0.00'', multa = str ''0.00'',
          total = str ''2.00''\<rparr>]"
proof -
  have h: "finditer so_latin1 pattern_linha (str ''pagina sem linhas'') = []"
    by (simp add: avalia_latin1)
  have e: "extrair_dados so_latin1 ([str ''1234 A 1,00 - - 1,00''] @ [str ''5678 B 2,00 - - 2,00'']) =
   Inr [\<lparr>codigo_darf = Some (str ''1234''), descricao = str ''A'',
          data_arrecadacao = Some [], banco = [],
          valor_principal = str ''1.00'', juros = str ''0.00'', multa = str ''0.00'',
          total = str ''1.00''\<rparr>,
        \<lparr>codigo_darf = Some (str ''5678''), descricao = str ''B'',
          data_arrecadacao = Some [], banco = [],
          valor_principal = str ''2.00'', juros = str ''0.00'', multa = str ''0.00'',
          total = str ''2.00''\<rparr>]"
    by (simp add: avalia_latin1)
  from paginas_em_ordem[of so_latin1 "[]" "str ''pagina sem linhas''" "[str ''1234 A 1,00 - - 1,00'']"
      "[str ''5678 B 2,00 - - 2,00'']"] h
  have "extrair_dados so_latin1 [str ''pagina sem linhas''] = Inr [] \<and>
      extrair_dados so_latin1 ([str ''1234 A 1,00 - - 1,00''] @ str ''pagina sem linhas'' # [str ''5678 B 2,00 - - 2,00'']) =
      extrair_dados so_latin1 ([str ''1234 A 1,00 - - 1,00''] @ [str ''5678 B 2,00 - - 2,00''])"
    by blast
  with h e show ?thesis by simp
qed

text \<open>
  C6. The date and the bank are computed anew for every page: in a document, the rows
  of a page carry the date and bank found on that page, whatever the pages before it;
  when the pattern matches neither the footer nor the flattened text of the page, both
  are the empty string in every row of the page.
\<close>

theorem data_banco_por_pagina:
  "\<exists>a b c db.
     extrair_dados u pre = Inr a \<and> extrair_dados u [texto] = Inr b \<and>
     extrair_dados u post = Inr c \<and> extrair_dados u (pre @ texto # post) = Inr (a @ b @ c) \<and>
     data_banco u texto = Inr db \<and>
     (\<forall>r \<in> set b. data_arrecadacao r = fst db \<and> banco r = snd db) \<and>
     (search u pattern_data_banco (rodape texto) = None \<and>
      search u pattern_data_banco (texto_flat texto) = None \<longrightarrow>
      (\<forall>r \<in> set b. data_arrecadacao r = Some [] \<and> banco r = []))"
proof -
  from data_banco_total obtain db where db: "data_banco u texto = Inr db" by blast
  let ?a = "concat (map (registros_pagina u) pre)"
  let ?b = "registros_pagina u texto"
  let ?c = "concat (map (registros_pagina u) post)"
  have 1: "extrair_dados u pre = Inr ?a" "extrair_dados u [texto] = Inr ?b"
    "extrair_dados u post = Inr ?c" "extrair_dados u (pre @ texto # post) = Inr (?a @ ?b @ ?c)"
    by (simp_all add: extrair_dados_eq)
  have 2: "\<forall>r \<in> set ?b. data_arrecadacao r = fst db \<and> banco r = snd db"
    using linhas_da_pagina_db[OF db] by blast
  have 3: "\<forall>r \<in> set ?b. data_arrecadacao r = Some [] \<and> banco r = []"
    if "search u pattern_data_banco (rodape texto) = None \<and>
        search u pattern_data_banco (texto_flat texto) = None"
  proof -
    from that db have "db = (Some [], [])" by (simp add: data_banco_def)
    with 2 show ?thesis by simp
  qed
  from 1 db 2 3 show ?thesis by blast
qed

theorem data_banco_por_pagina_witness:
  "search so_latin1 pattern_data_banco (rodape (str ''5678 B 2,00 - - 2,00'')) = None \<and>
   search so_latin1 pattern_data_banco (texto_flat (str ''5678 B 2,00 - - 2,00'')) = None \<and>
   extrair_dados so_latin1
     [str ''1234 A 1,00 - - 1,00'' @ [10] @ str ''31/01/2024 341 - BANCO ITAU S A'',
      str ''5678 B 2,00 - - 2,00''] =
   Inr [\<lparr>codigo_darf = Some (str ''1234''), descricao = str ''A'',
          data_arrecadacao = Some (str ''31/01/2024''), banco = str ''341 - BANCO ITAU S A'',
          valor_principal = str ''1.00'', juros = str ''0.00'', multa = str ''0.00'',
          total = str ''1.00''\<rparr>,
        \<lparr>codigo_darf = Some (str ''5678''), descricao = str ''B'',
          data_arrecadacao = Some [], banco = [],
          valor_principal = str ''2.00'', juros = str ''0.00'', multa = str ''0.00'',
          total = str ''2.00''\<rparr>] \<and>
   (\<exists>b. extrair_dados so_latin1 [str ''5678 B 2,00 - - 2,00''] = Inr b \<and> b \<noteq> [] \<and>
        (\<forall>r \<in> set b. data_arrecadacao r = Some [] \<and> banco r = []))"
proof -
  let ?p1 = "str ''1234 A 1,00 - - 1,00'' @ [10] @ str ''31/01/2024 341 - BANCO ITAU S A''"
  let ?t = "str ''5678 B 2,00 - - 2,00''"
  have h1: "search so_latin1 pattern_data_banco (rodape ?t) = None"
    by (simp add: avalia_latin1)
  have h2: "search so_latin1 pattern_data_banco (texto_flat ?t) = None"
    by (simp add: avalia_latin1)
  have e: "extrair_dados so_latin1 [?p1, ?t] =
   Inr [\<lparr>codigo_darf = Some (str ''1234''), descricao = str ''A'',
          data_arrecadacao = Some (str ''31/01/2024''), banco = str ''341 - BANCO ITAU S A'',
          valor_principal = str ''1.00'', juros = str ''0.00'', multa = str ''0.00'',
          total = str ''1.00''\<rparr>,
        \<lparr>codigo_darf = Some (str ''5678''), descricao = str ''B'',
          data_arrecadacao = Some [], banco = [],
          valor_principal = str ''2.00'', juros = str ''0.00'', multa = str ''0.00'',
          total = str ''2.00''\<rparr>]"
    by (simp add: avalia_latin1)
  have n: "extrair_dados so_latin1 [?t] \<noteq> Inr []"
    by (simp add: avalia_latin1)
  from data_banco_por_pagina[of so_latin1 "[?p1]" ?t "[]"] h1 h2 n
  have "\<exists>b. extrair_dados so_latin1 [?t] = Inr b \<and> b \<noteq> [] \<and>
        (\<forall>r \<in> set b. data_arrecadacao r = Some [] \<and> banco r = [])"
    by blast
  with h1 h2 e show ?thesis by blast
qed

text \<open>
  C8. When no match is accepted on any page, the extraction returns the empty list of
  rows and raises nothing, and the interface shows the warning that no data was
  extracted: neither the success message nor an exception. With an accepted match it
  shows the success message with the rows.
\<close>

theorem nenhum_dado:
  "((\<forall>texto \<in> set doc. aceitos u texto = []) \<longrightarrow>
      extrair_dados u doc = Inr [] \<and> interface u doc = Inr (Warning msg_nenhum_dado)) \<and>
   (\<not> (\<forall>texto \<in> set doc. aceitos u texto = []) \<longrightarrow>
      (\<exists>df. df \<noteq> [] \<and> extrair_dados u doc = Inr df \<and>
            interface u doc = Inr (Success msg_sucesso df)))"
proof -
  let ?rs = "concat (map (registros_pagina u) doc)"
  have e: "extrair_dados u doc = Inr ?rs" by (rule extrair_dados_eq)
  have v: "?rs = [] \<longleftrightarrow> (\<forall>texto \<in> set doc. aceitos u texto = [])"
    using numero_de_linhas[of u doc] by (metis (no_types, lifting) concat_eq_Nil_conv imageE image_eqI length_0_conv list.set_map)
  show ?thesis
  proof (cases "?rs = []")
    case True
    with e v show ?thesis by (simp add: interface_def)
  next
    case False
    with e v show ?thesis by (simp add: interface_def)
  qed
qed

theorem nenhum_dado_witness:
  "aceitos so_latin1 (str ''pagina sem linhas'') = [] \<and>
   aceitos so_latin1 (str ''1234 Valor Reservado 1,00 - - 1,00'') = [] \<and>
   extrair_dados so_latin1 [str ''pagina sem linhas'', str ''1234 Valor Reservado 1,00 - - 1,00''] = Inr [] \<and>
   interface so_latin1 [str ''pagina sem linhas'', str ''1234 Valor Reservado 1,00 - - 1,00''] =
     Inr (Warning msg_nenhum_dado)"
proof -
  have h1: "aceitos so_latin1 (str ''pagina sem linhas'') = []"
    by (simp add: avalia_latin1)
  have h2: "aceitos so_latin1 (str ''1234 Valor Reservado 1,00 - - 1,00'') = []"
    by (simp add: avalia_latin1)
  from nenhum_dado[of "[str ''pagina sem linhas'', str ''1234 Valor Reservado 1,00 - - 1,00'']" so_latin1]
    h1 h2 show ?thesis by simp
qed

section \<open>Date and bank of a page\<close>




text \<open>
  C5, as the claim states it, fails: a footer can end in
  \<open>...31/01/2024 341 - BANCO ITAU S A\<close> and hold an earlier date and bank, and the search
  returns the first one.
\<close>

theorem data_banco_counterexample:
  "rodape (str ''01/01/2020 001 - A ...31/01/2024 341 - BANCO ITAU S A'') =
     str ''01/01/2020 001 - A '' @ str ''...31/01/2024 341 - BANCO ITAU S A'' \<and>
   data_banco so_latin1 (str ''01/01/2020 001 - A ...31/01/2024 341 - BANCO ITAU S A'') =
     Inr (Some (str ''01/01/2020''), str ''001 - A ...31'') \<and>
   data_banco so_latin1 (str ''01/01/2020 001 - A ...31/01/2024 341 - BANCO ITAU S A'') \<noteq>
     Inr (Some (str ''31/01/2024''), str ''341 - BANCO ITAU S A'')"
  by (simp add: avalia_latin1)

text \<open>
  C5, amended. When the footer of a page ends in \<open>31/01/2024 341 - BANCO ITAU S A\<close> and the
  pattern matches at no position before that ending, the date is \<open>31/01/2024\<close> and the
  bank is \<open>341 - BANCO ITAU S A\<close>.
\<close>

theorem data_banco_no_fim_do_rodape:
  assumes "latin1_tables u"
    and "rodape texto = pre @ str ''31/01/2024 341 - BANCO ITAU S A''"
    and "\<forall>k<length pre. match_at u pattern_data_banco (drop k (rodape texto)) = None"
  shows "data_banco u texto = Inr (Some (str ''31/01/2024''), str ''341 - BANCO ITAU S A'')"
proof -
  have s: "search u pattern_data_banco (rodape texto) =
           search u pattern_data_banco (str ''31/01/2024 341 - BANCO ITAU S A'')"
    using assms(2,3) search_skip[of pre u pattern_data_banco "str ''31/01/2024 341 - BANCO ITAU S A''"]
    by simp
  have e: "(case search u pattern_data_banco (str ''31/01/2024 341 - BANCO ITAU S A'') of
              Some m_fb \<Rightarrow> data_banco_of m_fb | None \<Rightarrow> x) =
           Inr (Some (str ''31/01/2024''), str ''341 - BANCO ITAU S A'')" for x
    using assms(1)
    by (simp add: data_banco_of_def group_def match_at_def pattern_data_banco_def str_def strip_def
        rmatch.simps(5) Let_def latin1_decimal is_space_def)
  show ?thesis unfolding data_banco_def s by (rule e)
qed

theorem data_banco_no_fim_do_rodape_witness:
  "latin1_tables so_latin1 \<and>
   rodape (str ''...31/01/2024 341 - BANCO ITAU S A'') = str ''...'' @ str ''31/01/2024 341 - BANCO ITAU S A'' \<and>
   match_at so_latin1 pattern_data_banco (drop 0 (rodape (str ''...31/01/2024 341 - BANCO ITAU S A''))) = None \<and>
   match_at so_latin1 pattern_data_banco (drop 1 (rodape (str ''...31/01/2024 341 - BANCO ITAU S A''))) = None \<and>
   match_at so_latin1 pattern_data_banco (drop 2 (rodape (str ''...31/01/2024 341 - BANCO ITAU S A''))) = None \<and>
   data_banco so_latin1 (str ''...31/01/2024 341 - BANCO ITAU S A'') =
     Inr (Some (str ''31/01/2024''), str ''341 - BANCO ITAU S A'')"
proof -
  let ?t = "str ''...31/01/2024 341 - BANCO ITAU S A''"
  have r: "rodape ?t = str ''...'' @ str ''31/01/2024 341 - BANCO ITAU S A''"
    by (simp add: avalia_latin1)
  have m: "match_at so_latin1 pattern_data_banco (drop 0 (rodape ?t)) = None"
    "match_at so_latin1 pattern_data_banco (drop 1 (rodape ?t)) = None"
    "match_at so_latin1 pattern_data_banco (drop 2 (rodape ?t)) = None"
    by (simp_all add: avalia_latin1)
  have a: "\<forall>k<length (str ''...''). match_at so_latin1 pattern_data_banco (drop k (rodape ?t)) = None"
  proof (intro allI impI)
    fix k assume "k < length (str ''...'')"
    then have "k = 0 \<or> k = 1 \<or> k = 2" by (auto simp: str_def)
    with m show "match_at so_latin1 pattern_data_banco (drop k (rodape ?t)) = None" by auto
  qed
  from data_banco_no_fim_do_rodape[OF so_latin1_tables r a] so_latin1_tables r m show ?thesis
    by blast
qed

section \<open>What the line pattern also accepts\<close>

text \<open>
  C9. The white space between the fields may be line breaks: a page whose six fields
  stand on six lines gives a row.
\<close>

theorem campos_em_linhas_separadas:
  assumes "latin1_tables u"
  shows "splitlines (str ''1234'' @ [10] @ str ''DESC'' @ [10] @ str ''1,00'' @ [10] @ str ''-'' @ [10] @
                     str ''-'' @ [10] @ str ''1,00'') =
           [str ''1234'', str ''DESC'', str ''1,00'', str ''-'', str ''-'', str ''1,00''] \<and>
         extrair_dados u [str ''1234'' @ [10] @ str ''DESC'' @ [10] @ str ''1,00'' @ [10] @ str ''-'' @ [10] @
                          str ''-'' @ [10] @ str ''1,00''] =
           Inr [\<lparr>codigo_darf = Some (str ''1234''), descricao = str ''DESC'',
                 data_arrecadacao = Some [], banco = [],
                 valor_principal = str ''1.00'', juros = str ''0.00'', multa = str ''0.00'',
                 total = str ''1.00''\<rparr>]"
  using assms by (simp add: avalia)

theorem campos_em_linhas_separadas_witness:
  "latin1_tables so_latin1 \<and>
   extrair_dados so_latin1 [str ''1234'' @ [10] @ str ''DESC'' @ [10] @ str ''1,00'' @ [10] @ str ''-'' @ [10] @
                          str ''-'' @ [10] @ str ''1,00''] =
           Inr [\<lparr>codigo_darf = Some (str ''1234''), descricao = str ''DESC'',
                 data_arrecadacao = Some [], banco = [],
                 valor_principal = str ''1.00'', juros = str ''0.00'', multa = str ''0.00'',
                 total = str ''1.00''\<rparr>]"
  using campos_em_linhas_separadas [OF so_latin1_tables] so_latin1_tables by blast

text \<open>
  C10. The code is not anchored at the start of a number: for the page text
  \<open>12345 DESC 1,00 - - 1,00\<close> the row has the code \<open>2345\<close>, the last four digits.
\<close>

theorem codigo_de_numero_longo:
  assumes "latin1_tables u"
  shows "extrair_dados u [str ''12345 DESC 1,00 - - 1,00''] =
           Inr [\<lparr>codigo_darf = Some (str ''2345''), descricao = str ''DESC'',
                 data_arrecadacao = Some [], banco = [],
                 valor_principal = str ''1.00'', juros = str ''0.00'', multa = str ''0.00'',
                 total = str ''1.00''\<rparr>]"
  using assms by (simp add: avalia)

theorem codigo_de_numero_longo_witness:
  "latin1_tables so_latin1 \<and>
   extrair_dados so_latin1 [str ''12345 DESC 1,00 - - 1,00''] =
           Inr [\<lparr>codigo_darf = Some (str ''2345''), descricao = str ''DESC'',
                 data_arrecadacao = Some [], banco = [],
                 valor_principal = str ''1.00'', juros = str ''0.00'', multa = str ''0.00'',
                 total = str ''1.00''\<rparr>]"
  using codigo_de_numero_longo [OF so_latin1_tables] so_latin1_tables by blast

end
